theory Spec2Isabelle
  imports Main "HOL-Library.Sublist" "HOL-Library.AList" "HOL-Library.Char_ord"
    "HOL-Library.List_Lexorder"
begin

section \<open>Data model of \<^verbatim>\<open>h_sensor_acq.py\<close>\<close>

text \<open>
  The script works on pandas data frames, Python lists of data frames, the console and
  the file system. Each of them is made explicit here.

  \<^item> A data frame is its list of columns, in column order: a column is a name and the
    list of its cells, top to bottom (the row index is the default \<open>0, 1, 2, ...\<close> that
    \<^verbatim>\<open>read_csv\<close> produces). A cell is kept as its text; the script never computes with
    a sample, so the numeric parsing done by pandas is left out.
  \<^item> Every exception the script can meet is a value of \<open>py_error\<close>.
  \<^item> The console is a transcript: what \<^verbatim>\<open>print\<close> and \<^verbatim>\<open>input\<close> wrote, in order, and
    the lines the user still has to type.
\<close>

datatype py_error =
    AttributeError | KeyError | IndexError | ValueError | EOFError | OSError

type_synonym frame = "(string \<times> string list) list"

datatype event = Printed string | Prompted string

record console =
  stdin :: "string list"
  transcript :: "event list"

definition py_print :: "string \<Rightarrow> console \<Rightarrow> console" where
  "py_print s io = io\<lparr>transcript := transcript io @ [Printed s]\<rparr>"

text \<open>\<^verbatim>\<open>input(s)\<close> writes the prompt, then reads one line; at end of input it raises.\<close>

definition py_input :: "string \<Rightarrow> console \<Rightarrow> (py_error + string) \<times> console" where
  "py_input s io =
     (case stdin io of
        [] \<Rightarrow> (Inl EOFError, io\<lparr>transcript := transcript io @ [Prompted s]\<rparr>)
      | l # ls \<Rightarrow> (Inr l, io\<lparr>stdin := ls, transcript := transcript io @ [Prompted s]\<rparr>))"

definition prompts :: "console \<Rightarrow> string list" where
  "prompts io = concat (map (\<lambda>e. case e of Prompted s \<Rightarrow> [s] | Printed _ \<Rightarrow> []) (transcript io))"

text \<open>
  What the script asks of its surroundings: \<^verbatim>\<open>os.listdir\<close>, \<^verbatim>\<open>pd.read_csv\<close> of a whole
  file (the parsed table, or the error raised for a missing or corrupt file), and the
  text \<^verbatim>\<open>str\<close> gives for a pandas Series of the given cells.
\<close>

record env =
  listdir :: "string \<Rightarrow> py_error + string list"
  read_csv :: "string \<Rightarrow> py_error + frame"
  series_str :: "string list \<Rightarrow> string"

subsection \<open>Data frame operations used by the script\<close>

text \<open>\<^verbatim>\<open>df.name\<close>: the column of that name, AttributeError when there is none.\<close>

definition attr :: "frame \<Rightarrow> string \<Rightarrow> py_error + string list" where
  "attr df name = (case map_of df name of None \<Rightarrow> Inl AttributeError | Some c \<Rightarrow> Inr c)"

text \<open>\<^verbatim>\<open>series[n]\<close> on the default index: KeyError when there is no row \<open>n\<close>.\<close>

definition series_at :: "string list \<Rightarrow> nat \<Rightarrow> py_error + string" where
  "series_at c n = (if n < length c then Inr (c ! n) else Inl KeyError)"

text \<open>\<^verbatim>\<open>notes.index[notes.filename == file][0]\<close>: the first row whose cell equals \<open>file\<close>.\<close>

primrec first_index :: "string list \<Rightarrow> string \<Rightarrow> nat option" where
  "first_index [] x = None"
| "first_index (c # cs) x = (if c = x then Some 0 else map_option Suc (first_index cs x))"

definition index_where_eq0 :: "string list \<Rightarrow> string \<Rightarrow> py_error + nat" where
  "index_where_eq0 c file = (case first_index c file of None \<Rightarrow> Inl IndexError | Some n \<Rightarrow> Inr n)"

text \<open>
  \<^verbatim>\<open>pd.read_csv(p, usecols=cols)\<close>: ValueError unless every name of \<open>cols\<close> is a column of
  the file; the columns come back in file order.
\<close>

definition read_csv_usecols :: "env \<Rightarrow> string \<Rightarrow> string list \<Rightarrow> py_error + frame" where
  "read_csv_usecols w p cols =
     (case read_csv w p of
        Inl e \<Rightarrow> Inl e
      | Inr t \<Rightarrow>
          if list_all (\<lambda>c. c \<in> set (map fst t)) cols
          then Inr (filter (\<lambda>c. fst c \<in> set cols) t)
          else Inl ValueError)"

text \<open>\<^verbatim>\<open>df.columns = names\<close>: positional renaming, ValueError on a length mismatch.\<close>

definition set_columns :: "frame \<Rightarrow> string list \<Rightarrow> py_error + frame" where
  "set_columns df names =
     (if length names = length df then Inr (zip names (map snd df)) else Inl ValueError)"

definition nrows :: "frame \<Rightarrow> nat" where
  "nrows df = (case df of [] \<Rightarrow> 0 | c # _ \<Rightarrow> length (snd c))"

text \<open>\<^verbatim>\<open>df[name] = v\<close> with a scalar \<open>v\<close>: the column holds \<open>v\<close> in every row.\<close>

definition set_item :: "frame \<Rightarrow> string \<Rightarrow> string \<Rightarrow> frame" where
  "set_item df name v = AList.update name (replicate (nrows df) v) df"

text \<open>\<^verbatim>\<open>df.label[0]\<close> and \<^verbatim>\<open>df.fname[0]\<close>.\<close>

definition attr0 :: "frame \<Rightarrow> string \<Rightarrow> py_error + string" where
  "attr0 df name = (case attr df name of Inl e \<Rightarrow> Inl e | Inr c \<Rightarrow> series_at c 0)"

subsection \<open>Python list indexing\<close>

text \<open>\<^verbatim>\<open>xs[j]\<close>: a negative \<open>j\<close> counts from the end; IndexError outside \<open>-len .. len-1\<close>.\<close>

definition py_getitem :: "'a list \<Rightarrow> int \<Rightarrow> py_error + 'a" where
  "py_getitem xs j =
     (let n = int (length xs); k = (if j < 0 then n + j else j)
      in if 0 \<le> k \<and> k < n then Inr (xs ! nat k) else Inl IndexError)"

section \<open>The Record Loader and the Notes Index\<close>

definition oldnames :: "string list" where
  "oldnames = [''Smu1_Time(1)(1)'', ''Smu1_V(1)(1)'', ''Smu1_I(1)(1)'']"

definition newnames :: "string list" where
  "newnames = [''t_s'', ''v'', ''i'']"

definition get_sensor_data :: "env \<Rightarrow> string \<Rightarrow> string \<Rightarrow> string \<Rightarrow> py_error + frame" where
  "get_sensor_data w path fname label =
     (case read_csv_usecols w (path @ fname) oldnames of
        Inl e \<Rightarrow> Inl e
      | Inr sdata \<Rightarrow>
          (case set_columns sdata newnames of
             Inl e \<Rightarrow> Inl e
           | Inr sdata1 \<Rightarrow> Inr (set_item (set_item sdata1 ''fname'' fname) ''label'' label)))"

definition get_notes :: "env \<Rightarrow> string \<Rightarrow> py_error + frame" where
  "get_notes w notespath = read_csv w notespath"

section \<open>The Collection Builder\<close>

text \<open>
  The label of one file: the \<^verbatim>\<open>if file in str(notes.filename)\<close> statement of the loop
  body, with every exception it can raise. \<open>notes\<close> is \<open>None\<close> when the script holds
  the integer \<open>0\<close> in place of the notes table: \<^verbatim>\<open>notes.filename\<close> is then an
  AttributeError.
\<close>

definition input_s :: string where
  "input_s = ''Provide a short label for this data:  ''"

definition not_in_notes :: string where
  "not_in_notes = ''not in notes''"

definition choose_label ::
  "env \<Rightarrow> frame option \<Rightarrow> string \<Rightarrow> console \<Rightarrow> (py_error + string) \<times> console" where
  "choose_label w notes file io =
     (case notes of
        None \<Rightarrow> (Inl AttributeError, io)
      | Some nt \<Rightarrow>
          (case attr nt ''filename'' of
             Inl e \<Rightarrow> (Inl e, io)
           | Inr fcol \<Rightarrow>
               if sublist file (series_str w fcol) then
                 (case index_where_eq0 fcol file of
                    Inl e \<Rightarrow> (Inl e, io)
                  | Inr n \<Rightarrow>
                      (case series_at fcol n of
                         Inl e \<Rightarrow> (Inl e, io)
                       | Inr fn \<Rightarrow>
                           let io1 = py_print (CHR 0x0A # fn) io in
                           (case attr nt ''description'' of
                              Inl e \<Rightarrow> (Inl e, io1)
                            | Inr dcol \<Rightarrow>
                                (case series_at dcol n of
                                   Inl e \<Rightarrow> (Inl e, io1)
                                 | Inr d \<Rightarrow> py_input input_s (py_print d io1)))))
               else (Inr not_in_notes, io)))"

text \<open>
  The loop body for one directory entry. The bare \<^verbatim>\<open>except: continue\<close> turns every
  exception of the \<^verbatim>\<open>try\<close> block into leaving the collection as it is.
\<close>

definition scan_file ::
  "env \<Rightarrow> string \<Rightarrow> frame option \<Rightarrow> string \<Rightarrow> frame list \<times> console \<Rightarrow> frame list \<times> console" where
  "scan_file w path notes file st =
     (case st of (dfs, io) \<Rightarrow>
        if suffix ''.csv'' file then
          (case choose_label w notes file io of
             (Inl e, io') \<Rightarrow> (dfs, io')
           | (Inr label, io') \<Rightarrow>
               (case get_sensor_data w path file label of
                  Inl e \<Rightarrow> (dfs, io')
                | Inr df \<Rightarrow> (dfs @ [df], io')))
        else (dfs, io))"

definition scan_dir ::
  "env \<Rightarrow> string \<Rightarrow> frame option \<Rightarrow> string list \<Rightarrow> frame list \<times> console \<Rightarrow> frame list \<times> console" where
  "scan_dir w path notes files st = fold (scan_file w path notes) files st"

definition load_notes :: "env \<Rightarrow> string \<Rightarrow> console \<Rightarrow> frame option \<times> console" where
  "load_notes w notespath io =
     (case get_notes w notespath of
        Inl e \<Rightarrow> (None, py_print ''no notes for this directory'' io)
      | Inr nt \<Rightarrow> (Some nt, io))"

definition get_all_raw_ivs ::
  "env \<Rightarrow> string \<Rightarrow> string \<Rightarrow> console \<Rightarrow> (py_error + frame option \<times> frame list) \<times> console" where
  "get_all_raw_ivs w path notesname io =
     (case load_notes w (path @ notesname) io of (notes, io1) \<Rightarrow>
        (case listdir w path of
           Inl e \<Rightarrow> (Inl e, io1)
         | Inr files \<Rightarrow>
             (case scan_dir w path notes files ([], io1) of
                (dfs, io2) \<Rightarrow> (Inr (notes, dfs), io2))))"

section \<open>Collection operations\<close>

text \<open>
  \<^verbatim>\<open>for i in range(len(n)): newdfs.append(dfs[n[i]])\<close>. An IndexError leaves the loop
  and the function: the list built so far is lost.
\<close>

definition slice_step :: "'a list \<Rightarrow> int list \<Rightarrow> nat \<Rightarrow> py_error + 'a list \<Rightarrow> py_error + 'a list" where
  "slice_step dfs n i acc =
     (case acc of
        Inl e \<Rightarrow> Inl e
      | Inr newdfs \<Rightarrow>
          (case py_getitem dfs (n ! i) of
             Inl e \<Rightarrow> Inl e
           | Inr d \<Rightarrow> Inr (newdfs @ [d])))"

definition slice_dfs :: "'a list \<Rightarrow> int list \<Rightarrow> py_error + 'a list" where
  "slice_dfs dfs n = fold (slice_step dfs n) [0..<length n] (Inr [])"

text \<open>\<^verbatim>\<open>str(i)\<close> for an index of \<^verbatim>\<open>range\<close>.\<close>

fun str_nat :: "nat \<Rightarrow> string" where
  "str_nat n =
     (if n < 10 then [''0123456789'' ! n]
      else str_nat (n div 10) @ [''0123456789'' ! (n mod 10)])"

declare str_nat.simps [simp del]

text \<open>
  What \<^verbatim>\<open>print(i, '  ', label, '  ', fname)\<close> writes: the arguments, one blank between
  two of them.
\<close>

definition index_line :: "nat \<Rightarrow> string \<Rightarrow> string \<Rightarrow> string" where
  "index_line i label fname =
     str_nat i @ '' '' @ ''  '' @ '' '' @ label @ '' '' @ ''  '' @ '' '' @ fname"

text \<open>
  One turn of the loop of \<^verbatim>\<open>dfs_indexes\<close>. The state is the exception raised so far,
  if any, and the console: once an exception is raised the loop is left, so later turns
  do nothing. \<open>i\<close> comes from \<^verbatim>\<open>range(len(dfs))\<close>, so \<^verbatim>\<open>dfs[i]\<close> is in range. The arguments of
  \<^verbatim>\<open>print\<close> are evaluated from left to right.
\<close>

definition indexes_step ::
  "frame list \<Rightarrow> int \<Rightarrow> int \<Rightarrow> nat \<Rightarrow> py_error option \<times> console \<Rightarrow> py_error option \<times> console" where
  "indexes_step dfs istart iend i st =
     (case st of
        (Some e, io) \<Rightarrow> (Some e, io)
      | (None, io) \<Rightarrow>
          if int i \<ge> istart \<and> int i \<le> iend then
            (case attr0 (dfs ! i) ''label'' of
               Inl e \<Rightarrow> (Some e, io)
             | Inr l \<Rightarrow>
                 (case attr0 (dfs ! i) ''fname'' of
                    Inl e \<Rightarrow> (Some e, io)
                  | Inr f \<Rightarrow> (None, py_print (index_line i l f) io)))
          else (None, io))"

definition dfs_indexes ::
  "frame list \<Rightarrow> int \<Rightarrow> int \<Rightarrow> console \<Rightarrow> py_error option \<times> console" where
  "dfs_indexes dfs istart iend io =
     (let iend1 = (if iend = 0 \<or> iend < istart then int (length dfs) else iend)
      in fold (indexes_step dfs istart iend1) [0..<length dfs] (None, io))"

text \<open>
  The HDF5 files: a file name gives the store it holds, one frame under each key; a
  file that does not exist holds \<open>[]\<close> (\<^verbatim>\<open>to_hdf\<close> and \<^verbatim>\<open>HDFStore\<close> open in append mode,
  which creates the file). A key of a store is a path from the root: pandas puts \<open>/\<close>
  in front of a key that does not start with it, so the labels \<open>x\<close> and \<open>/x\<close> name one
  key. Disk errors are not modelled.
\<close>

type_synonym hdf_store = "(string \<times> frame) list"

type_synonym hdf_files = "string \<Rightarrow> hdf_store"

definition h5_path :: "string \<Rightarrow> string" where
  "h5_path key = (if prefix ''/'' key then key else ''/'' @ key)"

text \<open>
  \<^verbatim>\<open>df.to_hdf(filename, key)\<close> writes \<open>df\<close> under the path of \<open>key\<close>: a frame already stored
  there is replaced, every other key of the file is kept.
\<close>

definition to_hdf :: "frame \<Rightarrow> string \<Rightarrow> string \<Rightarrow> hdf_files \<Rightarrow> hdf_files" where
  "to_hdf df filename key fs = fs(filename := AList.update (h5_path key) df (fs filename))"

text \<open>
  One turn of the loop of \<^verbatim>\<open>save_dfs\<close>; \<^verbatim>\<open>dfs[i].label[0]\<close> is read for the key, and has
  the same value when it is read again for the message.
\<close>

definition save_step ::
  "frame list \<Rightarrow> string \<Rightarrow> nat \<Rightarrow> py_error option \<times> hdf_files \<times> console
     \<Rightarrow> py_error option \<times> hdf_files \<times> console" where
  "save_step dfs filename i st =
     (case st of
        (Some e, fs, io) \<Rightarrow> (Some e, fs, io)
      | (None, fs, io) \<Rightarrow>
          (case attr0 (dfs ! i) ''label'' of
             Inl e \<Rightarrow> (Some e, fs, io)
           | Inr l \<Rightarrow>
               (None, to_hdf (dfs ! i) filename l fs,
                py_print (''Saved '' @ l @ '' dataframe to '' @ filename) io)))"

definition save_dfs ::
  "frame list \<Rightarrow> string \<Rightarrow> hdf_files \<times> console \<Rightarrow> py_error option \<times> hdf_files \<times> console" where
  "save_dfs dfs filename st =
     (case st of (fs, io) \<Rightarrow> fold (save_step dfs filename) [0..<length dfs] (None, fs, io))"

text \<open>
  Opening an HDF5 file that the process already holds open: the library refuses, with
  a ValueError, to open a file read-only while a handle on it is open for writing, and
  to open it for writing while a read-only handle is open. \<open>handles\<close> are the modes of
  the handles open on the file.
\<close>

datatype h5_mode = Read_only | Append_mode

definition open_h5 :: "h5_mode \<Rightarrow> h5_mode list \<Rightarrow> py_error + h5_mode list" where
  "open_h5 m handles =
     (if m = Read_only
      then (if list_all (\<lambda>h. h = Read_only) handles then Inr (m # handles) else Inl ValueError)
      else (if list_ex (\<lambda>h. h = Read_only) handles then Inl ValueError else Inr (m # handles)))"

text \<open>\<^verbatim>\<open>store.keys()\<close>: the paths of the store, sorted by name.\<close>

definition store_keys :: "string \<Rightarrow> hdf_files \<Rightarrow> string list" where
  "store_keys filename fs = sort (map fst (fs filename))"

text \<open>
  \<^verbatim>\<open>pd.read_hdf(filename, key=key)\<close> opens the file read-only, reads the frame under the
  key and closes its handle again.
\<close>

definition read_hdf ::
  "string \<Rightarrow> string \<Rightarrow> hdf_files \<Rightarrow> h5_mode list \<Rightarrow> py_error + frame" where
  "read_hdf filename key fs handles =
     (case open_h5 Read_only handles of
        Inl e \<Rightarrow> Inl e
      | Inr hs \<Rightarrow>
          (case map_of (fs filename) (h5_path key) of
             None \<Rightarrow> Inl KeyError
           | Some df \<Rightarrow> Inr df))"

text \<open>
  \<^verbatim>\<open>read_ivs\<close>: \<^verbatim>\<open>store = pd.HDFStore(filename)\<close> opens the file in append mode and the
  handle stays open; for each key of the store, \<^verbatim>\<open>pd.read_hdf\<close> is then called on the
  file name.
\<close>

definition read_step ::
  "string \<Rightarrow> hdf_files \<Rightarrow> h5_mode list \<Rightarrow> string \<Rightarrow> py_error + frame list
     \<Rightarrow> py_error + frame list" where
  "read_step filename fs handles key acc =
     (case acc of
        Inl e \<Rightarrow> Inl e
      | Inr dfs \<Rightarrow>
          (case read_hdf filename key fs handles of
             Inl e \<Rightarrow> Inl e
           | Inr df \<Rightarrow> Inr (dfs @ [df])))"

definition read_ivs :: "string \<Rightarrow> hdf_files \<Rightarrow> py_error + frame list" where
  "read_ivs filename fs =
     (case open_h5 Append_mode [] of
        Inl e \<Rightarrow> Inl e
      | Inr handles \<Rightarrow>
          fold (read_step filename fs handles) (store_keys filename fs) (Inr []))"

section \<open>A small directory for the examples\<close>

text \<open>
  The text pandas gives for a Series of text cells named \<open>filename\<close>, as long as the
  Series is short enough to be shown in full: the index, four blanks, the cell,
  right-aligned; then the footer. It is used in the examples only; the theorems hold
  for whatever \<open>series_str\<close> is.
\<close>

definition ljust :: "nat \<Rightarrow> string \<Rightarrow> string" where
  "ljust w s = s @ replicate (w - length s) CHR '' ''"

definition rjust :: "nat \<Rightarrow> string \<Rightarrow> string" where
  "rjust w s = replicate (w - length s) CHR '' '' @ s"

definition series_repr :: "string list \<Rightarrow> string" where
  "series_repr c =
     (if c = [] then ''Series([], Name: filename, dtype: object)''
      else
        (let iw = length (str_nat (length c - 1)); vw = fold max (map length c) 0
         in concat (map (\<lambda>(i, v). ljust iw (str_nat i) @ ''    '' @ rjust vw v @ [CHR 0x0A])
                        (enumerate 0 c))
            @ ''Name: filename, dtype: object''))"

text \<open>
  The directory \<open>data/\<close> holds three measurement files (\<open>run_003.csv\<close>, \<open>3.csv\<close> and
  \<open>run_04.csv\<close>), the measurement file \<open>bad.csv\<close> without the current column, and the
  notes file \<open>notes.csv\<close> with one row, for \<open>run_003.csv\<close>.
\<close>

definition demo_csv :: frame where
  "demo_csv =
     [(''Smu1_Time(1)(1)'', [''0.0'', ''0.5'']),
      (''Smu1_V(1)(1)'', [''-3.0'', ''-3.0'']),
      (''Smu1_I(1)(1)'', [''1.2e-09'', ''1.3e-09''])]"

definition demo_bad_csv :: frame where
  "demo_bad_csv =
     [(''Smu1_Time(1)(1)'', [''0.0'', ''0.5'']),
      (''Smu1_V(1)(1)'', [''-3.0'', ''-3.0''])]"

definition demo_notes :: frame where
  "demo_notes = [(''filename'', [''run_003.csv'']), (''description'', ['' field test''])]"

definition demo_env :: env where
  "demo_env =
     \<lparr>listdir = (\<lambda>p. if p = ''data/''
                      then Inr [''run_003.csv'', ''bad.csv'', ''3.csv'', ''run_04.csv'', ''notes.csv'']
                      else Inl OSError),
      read_csv = (\<lambda>p. if p = ''data/run_003.csv'' \<or> p = ''data/3.csv'' \<or> p = ''data/run_04.csv''
                       then Inr demo_csv
                       else if p = ''data/bad.csv'' then Inr demo_bad_csv
                       else if p = ''data/notes.csv'' then Inr demo_notes
                       else Inl OSError),
      series_str = series_repr\<rparr>"

text \<open>The frame \<^verbatim>\<open>get_sensor_data\<close> makes of \<open>demo_csv\<close>.\<close>

definition demo_frame :: "string \<Rightarrow> string \<Rightarrow> frame" where
  "demo_frame fname label =
     [(''t_s'', [''0.0'', ''0.5'']), (''v'', [''-3.0'', ''-3.0'']),
      (''i'', [''1.2e-09'', ''1.3e-09'']),
      (''fname'', [fname, fname]), (''label'', [label, label])]"

text \<open>The frame of a measurement file that has the header line and no sample.\<close>

definition empty_frame :: frame where
  "empty_frame = [(''t_s'', []), (''v'', []), (''i'', []), (''fname'', []), (''label'', [])]"

definition console0 :: "string list \<Rightarrow> console" where
  "console0 typed = \<lparr>stdin = typed, transcript = []\<rparr>"

text \<open>
  The directory \<open>data2/\<close>: two measurement files and a notes file whose only row is for
  \<open>a.csv\<close> and mentions \<open>b.csv\<close> in its description.
\<close>

definition descr_notes :: frame where
  "descr_notes = [(''filename'', [''a.csv'']), (''description'', [''see b.csv''])]"

definition descr_env :: env where
  "descr_env =
     \<lparr>listdir = (\<lambda>p. if p = ''data2/'' then Inr [''a.csv'', ''b.csv'', ''notes.csv'']
                      else Inl OSError),
      read_csv = (\<lambda>p. if p = ''data2/a.csv'' \<or> p = ''data2/b.csv'' then Inr demo_csv
                       else if p = ''data2/notes.csv'' then Inr descr_notes
                       else Inl OSError),
      series_str = series_repr\<rparr>"

text \<open>A collection of \<open>n\<close> loaded records, labelled \<open>lab0\<close>, \<open>lab1\<close>, ...\<close>

definition demo_collection :: "nat \<Rightarrow> frame list" where
  "demo_collection n = map (\<lambda>i. demo_frame (str_nat i @ ''.csv'') (''lab'' @ str_nat i)) [0..<n]"

section \<open>Python list indexing and the Slice operation\<close>

lemma py_getitem_error: "py_getitem xs j = Inl e \<Longrightarrow> e = IndexError"
  by (auto simp: py_getitem_def Let_def split: if_splits)

lemma py_getitem_Inr_iff:
  "(\<exists>d. py_getitem xs j = Inr d) \<longleftrightarrow> - int (length xs) \<le> j \<and> j < int (length xs)"
  by (auto simp: py_getitem_def Let_def)

lemma py_getitem_nonneg:
  "py_getitem xs j = Inr d \<Longrightarrow> 0 \<le> j \<Longrightarrow> d = xs ! nat j"
  by (auto simp: py_getitem_def Let_def split: if_splits)

lemma py_getitem_neg:
  "py_getitem xs j = Inr d \<Longrightarrow> j < 0 \<Longrightarrow> d = xs ! nat (int (length xs) + j)"
  by (auto simp: py_getitem_def Let_def split: if_splits)

lemma slice_dfs_Nil: "slice_dfs dfs [] = Inr []"
  by (simp add: slice_dfs_def)

lemma slice_step_snoc:
  "i < length n \<Longrightarrow> slice_step dfs (n @ [j]) i acc = slice_step dfs n i acc"
  by (simp add: slice_step_def nth_append split: sum.splits)

text \<open>One more index at the end of the list is one more turn of the loop.\<close>

lemma slice_dfs_snoc:
  "slice_dfs dfs (n @ [j]) =
     (case slice_dfs dfs n of
        Inl e \<Rightarrow> Inl e
      | Inr r \<Rightarrow> (case py_getitem dfs j of Inl e \<Rightarrow> Inl e | Inr d \<Rightarrow> Inr (r @ [d])))"
proof -
  have "fold (slice_step dfs (n @ [j])) [0..<length n] (Inr []) =
        fold (slice_step dfs n) [0..<length n] (Inr [])"
    by (rule fold_cong) (auto simp: slice_step_snoc)
  then show ?thesis
    by (simp add: slice_dfs_def slice_step_def split: sum.splits)
qed

lemma slice_dfs_error: "slice_dfs dfs n = Inl e \<Longrightarrow> e = IndexError"
  by (induction n arbitrary: e rule: rev_induct)
     (auto simp: slice_dfs_Nil slice_dfs_snoc split: sum.splits dest: py_getitem_error)

lemma slice_dfs_ok_iff:
  "(\<exists>r. slice_dfs dfs n = Inr r) \<longleftrightarrow>
   (\<forall>j\<in>set n. - int (length dfs) \<le> j \<and> j < int (length dfs))"
proof (induction n rule: rev_induct)
  case Nil
  show ?case by (simp add: slice_dfs_Nil)
next
  case (snoc j n)
  have "(\<exists>r. slice_dfs dfs (n @ [j]) = Inr r) \<longleftrightarrow>
        (\<exists>r. slice_dfs dfs n = Inr r) \<and> (\<exists>d. py_getitem dfs j = Inr d)"
    by (auto simp: slice_dfs_snoc split: sum.splits)
  with snoc show ?case
    by (auto simp: py_getitem_Inr_iff)
qed

lemma slice_dfs_nth:
  "slice_dfs dfs n = Inr r \<Longrightarrow>
   length r = length n \<and> (\<forall>k<length n. py_getitem dfs (n ! k) = Inr (r ! k))"
proof (induction n arbitrary: r rule: rev_induct)
  case Nil
  then show ?case by (simp add: slice_dfs_Nil)
next
  case (snoc j n)
  from snoc.prems obtain r0 d where r0: "slice_dfs dfs n = Inr r0"
    and d: "py_getitem dfs j = Inr d" and r: "r = r0 @ [d]"
    by (auto simp: slice_dfs_snoc split: sum.splits)
  from snoc.IH[OF r0] have len: "length r0 = length n"
    and nth: "\<And>k. k < length n \<Longrightarrow> py_getitem dfs (n ! k) = Inr (r0 ! k)" by auto
  show ?case
    using len nth d by (auto simp: r nth_append less_Suc_eq)
qed

text \<open>
  Claim C2. For every collection \<open>C\<close> and every index list \<open>L\<close> whose elements are all in
  range for \<open>C\<close> (Python's range, \<open>-len C \<le> j < len C\<close>, which contains \<open>0 \<le> j < len C\<close>),
  \<open>slice_dfs C L\<close> returns a list of length \<open>len L\<close> whose \<open>k\<close>-th element is \<open>C[L[k]]\<close>,
  the very element of \<open>C\<close> with its filename, label and samples; for an index that is
  not negative this is the element at position \<open>L[k]\<close>. Nothing is asked of \<open>L\<close> beyond
  the range: indices may repeat and come in any order.
\<close>

theorem slice_dfs_in_range:
  assumes "\<forall>j\<in>set L. - int (length C) \<le> j \<and> j < int (length C)"
  shows "\<exists>R. slice_dfs C L = Inr R \<and> length R = length L \<and>
           (\<forall>k<length L. py_getitem C (L ! k) = Inr (R ! k) \<and>
                          (0 \<le> L ! k \<longrightarrow> R ! k = C ! nat (L ! k)))"
proof -
  from assms obtain R where R: "slice_dfs C L = Inr R"
    using slice_dfs_ok_iff[of C L] by blast
  from slice_dfs_nth[OF R] have len: "length R = length L"
    and nth: "\<And>k. k < length L \<Longrightarrow> py_getitem C (L ! k) = Inr (R ! k)" by auto
  have "R ! k = C ! nat (L ! k)" if "k < length L" "0 \<le> L ! k" for k
    using py_getitem_nonneg[OF nth[OF that(1)] that(2)] .
  with R len nth show ?thesis by blast
qed

theorem slice_dfs_in_range_witness:
  "\<exists>R. slice_dfs [''a'', ''b'', ''c''] [2, 0, 0] = Inr R \<and> length R = 3
       \<and> R ! 0 = ''c'' \<and> R ! 1 = ''a'' \<and> R ! 2 = ''a''"
proof -
  let ?C = "[''a'', ''b'', ''c'']" and ?L = "[2, 0, 0] :: int list"
  have h: "\<forall>j\<in>set ?L. - int (length ?C) \<le> j \<and> j < int (length ?C)"
    by simp
  from slice_dfs_in_range[OF h] obtain R
    where R: "slice_dfs ?C ?L = Inr R" and len: "length R = length ?L"
      and nth: "\<forall>k<length ?L. py_getitem ?C (?L ! k) = Inr (R ! k) \<and>
                  (0 \<le> ?L ! k \<longrightarrow> R ! k = ?C ! nat (?L ! k))"
    by blast
  from nth have "R ! 0 = ''c''" by simp
  moreover from nth have "R ! 1 = ''a''" by simp
  moreover from nth have "R ! 2 = ''a''" by simp
  ultimately show ?thesis using R len by simp
qed

text \<open>
  Claim C7. For every collection \<open>C\<close> and index list \<open>L\<close> holding at least one index out
  of range (below \<open>-len C\<close> or at least \<open>len C\<close>), \<open>slice_dfs C L\<close> ends in the IndexError:
  the call has no other result, so nothing of the list built so far is returned.
\<close>

theorem slice_dfs_out_of_range:
  assumes "\<exists>j\<in>set L. j < - int (length C) \<or> int (length C) \<le> j"
  shows "slice_dfs C L = Inl IndexError"
proof (cases "slice_dfs C L")
  case (Inl e)
  then show ?thesis using slice_dfs_error[of C L e] by simp
next
  case (Inr R)
  then have "\<forall>j\<in>set L. - int (length C) \<le> j \<and> j < int (length C)"
    using slice_dfs_ok_iff[of C L] by blast
  with assms show ?thesis by force
qed

theorem slice_dfs_out_of_range_witness:
  "slice_dfs [''a'', ''b'', ''c''] [0, 3, 1] = Inl IndexError
   \<and> slice_dfs [''a'', ''b'', ''c''] [1, - 4] = Inl IndexError"
proof -
  have "\<exists>j\<in>set [0, 3, 1]. j < - int (length [''a'', ''b'', ''c''])
           \<or> int (length [''a'', ''b'', ''c'']) \<le> j"
    by simp
  moreover have "\<exists>j\<in>set [1, - 4]. j < - int (length [''a'', ''b'', ''c''])
           \<or> int (length [''a'', ''b'', ''c'']) \<le> j"
    by simp
  ultimately show ?thesis
    using slice_dfs_out_of_range[of "[0, 3, 1]" "[''a'', ''b'', ''c'']"]
      slice_dfs_out_of_range[of "[1, - 4]" "[''a'', ''b'', ''c'']"]
    by blast
qed

text \<open>
  Claim C8. A negative index \<open>j\<close> with \<open>-len C \<le> j < 0\<close> does not make \<open>slice_dfs\<close> fail:
  the call fails exactly when some index is below \<open>-len C\<close> or at least \<open>len C\<close>, and in
  a call that returns, a negative index at position \<open>k\<close> selects the record at position
  \<open>len C + j\<close>, counted from the end.
\<close>

theorem slice_dfs_negative_index:
  "(slice_dfs C L = Inl IndexError \<longleftrightarrow>
      (\<exists>j\<in>set L. j < - int (length C) \<or> int (length C) \<le> j))
   \<and> (\<forall>R k. slice_dfs C L = Inr R \<and> k < length L \<and> L ! k < 0 \<longrightarrow>
         R ! k = C ! nat (int (length C) + L ! k))"
proof (intro conjI allI impI)
  show "slice_dfs C L = Inl IndexError \<longleftrightarrow>
      (\<exists>j\<in>set L. j < - int (length C) \<or> int (length C) \<le> j)"
  proof (cases "slice_dfs C L")
    case (Inl e)
    then have "\<not> (\<forall>j\<in>set L. - int (length C) \<le> j \<and> j < int (length C))"
      using slice_dfs_ok_iff[of C L] by simp
    moreover have "e = IndexError" using Inl by (rule slice_dfs_error)
    ultimately show ?thesis using Inl by (auto simp: not_le not_less)
  next
    case (Inr R)
    then have "\<forall>j\<in>set L. - int (length C) \<le> j \<and> j < int (length C)"
      using slice_dfs_ok_iff[of C L] by blast
    with Inr show ?thesis by force
  qed
next
  fix R k
  assume a: "slice_dfs C L = Inr R \<and> k < length L \<and> L ! k < 0"
  then have g: "py_getitem C (L ! k) = Inr (R ! k)"
    using slice_dfs_nth[of C L R] by blast
  from a have "L ! k < 0" by simp
  from py_getitem_neg[OF g this] show "R ! k = C ! nat (int (length C) + L ! k)" .
qed

theorem slice_dfs_negative_index_witness:
  "slice_dfs [''a'', ''b'', ''c''] [- 1, 0, - 3] \<noteq> Inl IndexError
   \<and> (\<exists>R. slice_dfs [''a'', ''b'', ''c''] [- 1, 0, - 3] = Inr R \<and> R ! 0 = ''c'' \<and> R ! 2 = ''a'')"
proof -
  let ?C = "[''a'', ''b'', ''c'']" and ?L = "[- 1, 0, - 3] :: int list"
  note inst = slice_dfs_negative_index[of ?C ?L]
  have ok: "slice_dfs ?C ?L \<noteq> Inl IndexError"
    using inst by simp
  then obtain R where R: "slice_dfs ?C ?L = Inr R"
    using slice_dfs_error[of ?C ?L] by (cases "slice_dfs ?C ?L") auto
  from inst R have sel: "\<And>k. k < length ?L \<Longrightarrow> ?L ! k < 0 \<Longrightarrow>
      R ! k = ?C ! nat (int (length ?C) + ?L ! k)"
    by blast
  have "R ! 0 = ''c''" using sel[of 0] by simp
  moreover have "R ! 2 = ''a''" using sel[of 2] by simp
  ultimately show ?thesis using ok R by simp
qed

section \<open>The Collection Builder: lemmas\<close>

lemma first_index_None: "first_index c x = None \<longleftrightarrow> x \<notin> set c"
  by (induction c) auto

lemma first_index_Some:
  "first_index c x = Some n \<Longrightarrow> n < length c \<and> c ! n = x \<and> (\<forall>m<n. c ! m \<noteq> x)"
proof (induction c arbitrary: n)
  case Nil
  then show ?case by simp
next
  case (Cons a c)
  show ?case
  proof (cases "a = x")
    case True
    with Cons.prems show ?thesis by simp
  next
    case False
    with Cons.prems obtain k where k: "first_index c x = Some k" and n: "n = Suc k"
      by auto
    from Cons.IH[OF k] False show ?thesis
      by (auto simp: n nth_Cons split: nat.splits)
  qed
qed

lemma choose_label_None: "choose_label w None file io = (Inl AttributeError, io)"
  by (simp add: choose_label_def)

lemma choose_label_not_sub:
  "attr nt ''filename'' = Inr fcol \<Longrightarrow> \<not> sublist file (series_str w fcol) \<Longrightarrow>
   choose_label w (Some nt) file io = (Inr not_in_notes, io)"
  by (simp add: choose_label_def)

lemma choose_label_no_row:
  "attr nt ''filename'' = Inr fcol \<Longrightarrow> sublist file (series_str w fcol) \<Longrightarrow>
   file \<notin> set fcol \<Longrightarrow> choose_label w (Some nt) file io = (Inl IndexError, io)"
  by (simp add: choose_label_def index_where_eq0_def first_index_None[THEN iffD2])

lemma choose_label_row:
  assumes "attr nt ''filename'' = Inr fcol" and "sublist file (series_str w fcol)"
    and "first_index fcol file = Some n"
    and "attr nt ''description'' = Inr dcol" and "length dcol = length fcol"
  shows "choose_label w (Some nt) file io =
           py_input input_s (py_print (dcol ! n) (py_print (CHR 0x0A # file) io))"
proof -
  from first_index_Some[OF assms(3)] have "n < length fcol" "fcol ! n = file" by auto
  with assms show ?thesis
    by (simp add: choose_label_def index_where_eq0_def series_at_def Let_def)
qed

lemma scan_file_None: "scan_file w path None file st = st"
  by (cases st) (simp add: scan_file_def choose_label_None)

lemma scan_dir_None: "scan_dir w path None files st = st"
  by (induction files arbitrary: st) (simp_all add: scan_dir_def scan_file_None)

lemma get_all_raw_ivs_no_notes:
  assumes "get_notes w (path @ notesname) = Inl e" and "listdir w path = Inr files"
  shows "get_all_raw_ivs w path notesname io =
           (Inr (None, []), py_print ''no notes for this directory'' io)"
  using assms by (simp add: get_all_raw_ivs_def load_notes_def scan_dir_None)

lemma scan_dir_append:
  "scan_dir w path notes (xs @ ys) st = scan_dir w path notes ys (scan_dir w path notes xs st)"
  by (simp add: scan_dir_def)

lemma scan_dir_Cons:
  "scan_dir w path notes (x # xs) st = scan_dir w path notes xs (scan_file w path notes x st)"
  by (simp add: scan_dir_def)

lemma scan_file_no_row:
  assumes "attr nt ''filename'' = Inr fcol" and "sublist file (series_str w fcol)"
    and "file \<notin> set fcol"
  shows "scan_file w path (Some nt) file st = st"
  using choose_label_no_row[OF assms]
  by (cases st) (simp add: scan_file_def)

lemma get_all_raw_ivs_returns:
  assumes "listdir w path = Inr files"
  shows "\<exists>notes dfs io'. get_all_raw_ivs w path notesname io = (Inr (notes, dfs), io')"
  using assms by (simp add: get_all_raw_ivs_def split: prod.splits)

lemma get_all_raw_ivs_notes:
  assumes "get_notes w (path @ notesname) = Inr nt" and "listdir w path = Inr files"
  shows "get_all_raw_ivs w path notesname io =
           (Inr (Some nt, fst (scan_dir w path (Some nt) files ([], io))),
            snd (scan_dir w path (Some nt) files ([], io)))"
  using assms by (simp add: get_all_raw_ivs_def load_notes_def split: prod.splits)










lemma prompts_py_print: "prompts (py_print s io) = prompts io"
  by (simp add: prompts_def py_print_def)

lemma prompts_py_input: "prompts (snd (py_input s io)) = prompts io @ [s]"
  by (simp add: prompts_def py_input_def split: list.splits)

lemma transcript_py_input:
  "transcript (snd (py_input s io)) = transcript io @ [Prompted s]"
  by (simp add: py_input_def split: list.splits)

lemma fst_py_input: "stdin io = l # ls \<Longrightarrow> fst (py_input s io) = Inr l"
  by (simp add: py_input_def)

lemma stdin_py_print: "stdin (py_print s io) = stdin io"
  by (simp add: py_print_def)

lemma transcript_py_print: "transcript (py_print s io) = transcript io @ [Printed s]"
  by (simp add: py_print_def)

lemma snd_scan_file:
  "suffix ''.csv'' file \<Longrightarrow>
   snd (scan_file w path notes file (dfs, io)) = snd (choose_label w notes file io)"
  by (simp add: scan_file_def split: prod.splits sum.splits)

lemma fst_scan_file:
  "suffix ''.csv'' file \<Longrightarrow> fst (choose_label w notes file io) = Inr l \<Longrightarrow>
   fst (scan_file w path notes file (dfs, io)) =
     (case get_sensor_data w path file l of Inl e \<Rightarrow> dfs | Inr df \<Rightarrow> dfs @ [df])"
  by (auto simp: scan_file_def split: prod.splits sum.splits)

text \<open>
  Claim C1 says that with a notes file that cannot be read the builder returns every
  parseable \<open>.csv\<close> file of the directory under the label \<open>not in notes\<close>. The script does
  catch the failure and goes on with \<open>notes = 0\<close>, but \<^verbatim>\<open>notes.filename\<close> on that integer
  raises inside the \<^verbatim>\<open>try\<close> of the loop, so every file is skipped (lemma
  \<open>get_all_raw_ivs_no_notes\<close>). In the directory \<open>data/\<close>, with the notes file
  \<open>absent.csv\<close> that does not exist, \<open>run_04.csv\<close> loads under the default label, and
  yet the call returns the empty collection; it is not fatal and prompts for nothing.
\<close>

theorem get_all_raw_ivs_notes_absent:
  "get_notes demo_env (''data/'' @ ''absent.csv'') = Inl OSError
   \<and> get_sensor_data demo_env ''data/'' ''run_04.csv'' not_in_notes
       = Inr (demo_frame ''run_04.csv'' ''not in notes'')
   \<and> get_all_raw_ivs demo_env ''data/'' ''absent.csv'' (console0 [])
       = (Inr (None, []), py_print ''no notes for this directory'' (console0 []))"
proof -
  have a: "get_notes demo_env (''data/'' @ ''absent.csv'') = Inl OSError"
    by code_simp
  have b: "listdir demo_env ''data/''
             = Inr [''run_003.csv'', ''bad.csv'', ''3.csv'', ''run_04.csv'', ''notes.csv'']"
    by code_simp
  have c: "get_sensor_data demo_env ''data/'' ''run_04.csv'' not_in_notes
             = Inr (demo_frame ''run_04.csv'' ''not in notes'')"
    by code_simp
  from a c get_all_raw_ivs_no_notes[OF a b] show ?thesis by simp
qed



text \<open>
  Claim C9, amended. With a notes table present, a file whose name occurs in the text
  of the \<open>filename\<close> column of the table (\<^verbatim>\<open>str(notes.filename)\<close>, the only part of the
  table the script serializes) while no cell of the column equals it is skipped
  entirely: the loop body leaves the collection and the console as they are (no frame,
  no default label, no prompt), and the call returns what the directory without that
  entry gives.
\<close>

theorem get_all_raw_ivs_skips_false_match:
  assumes tab: "get_notes w (path @ notesname) = Inr nt"
    and col: "attr nt ''filename'' = Inr fcol"
    and dir: "listdir w path = Inr (pre @ file # post)"
    and sub: "sublist file (series_str w fcol)"
    and norow: "file \<notin> set fcol"
  shows "scan_file w path (Some nt) file st = st
         \<and> get_all_raw_ivs w path notesname io =
             (case scan_dir w path (Some nt) (pre @ post) ([], io) of
                (dfs, io') \<Rightarrow> (Inr (Some nt, dfs), io'))"
proof -
  have skip: "scan_file w path (Some nt) file s = s" for s
    using col sub norow by (rule scan_file_no_row)
  have "scan_dir w path (Some nt) (pre @ file # post) ([], io) =
        scan_dir w path (Some nt) (pre @ post) ([], io)"
    by (simp add: scan_dir_append scan_dir_Cons skip)
  then show ?thesis
    using skip tab dir
    by (simp add: get_all_raw_ivs_def load_notes_def split: prod.splits)
qed

theorem get_all_raw_ivs_skips_false_match_witness:
  "scan_file demo_env ''data/'' (Some demo_notes) ''3.csv'' ([], console0 [''lab1''])
     = ([], console0 [''lab1''])
   \<and> get_all_raw_ivs demo_env ''data/'' ''notes.csv'' (console0 [''lab1'']) =
       (case scan_dir demo_env ''data/'' (Some demo_notes)
               ([''run_003.csv'', ''bad.csv''] @ [''run_04.csv'', ''notes.csv''])
               ([], console0 [''lab1'']) of
          (dfs, io') \<Rightarrow> (Inr (Some demo_notes, dfs), io'))"
proof -
  have a: "get_notes demo_env (''data/'' @ ''notes.csv'') = Inr demo_notes"
    by code_simp
  have b: "attr demo_notes ''filename'' = Inr [''run_003.csv'']"
    by code_simp
  have c: "listdir demo_env ''data/''
             = Inr ([''run_003.csv'', ''bad.csv''] @ ''3.csv'' # [''run_04.csv'', ''notes.csv''])"
    by code_simp
  have d: "sublist ''3.csv'' (series_str demo_env [''run_003.csv''])"
    by code_simp
  have e: "''3.csv'' \<notin> set [''run_003.csv'']"
    by simp
  show ?thesis
    by (rule get_all_raw_ivs_skips_false_match[OF a b c d e])
qed

text \<open>
  As stated, for a name that occurs anywhere in the serialized notes table, C9 fails:
  in \<open>data2/\<close> the name \<open>b.csv\<close> occurs in the notes table, in the description of the row
  of \<open>a.csv\<close>, and no row has it as filename; it does not occur in the text of the
  \<open>filename\<close> column, and the file is not skipped but loaded under \<open>not in notes\<close>.
\<close>

theorem description_match_is_loaded:
  "attr descr_notes ''description'' = Inr [''see b.csv'']
   \<and> sublist ''b.csv'' ''see b.csv''
   \<and> attr descr_notes ''filename'' = Inr [''a.csv'']
   \<and> \<not> sublist ''b.csv'' (series_str descr_env [''a.csv''])
   \<and> scan_file descr_env ''data2/'' (Some descr_notes) ''b.csv'' ([], console0 [])
       = ([demo_frame ''b.csv'' ''not in notes''], console0 [])"
  by code_simp

text \<open>
  What the loop body does for a directory entry ending in \<open>.csv\<close> when the notes table
  has its \<open>filename\<close> and \<open>description\<close> columns: it prompts exactly when the name occurs
  in the text of the \<open>filename\<close> column and some cell of the column equals it; the row
  shown is then the first such row, and the frame is loaded under the line the user
  types. When the name does not occur in that text the file is loaded under
  \<open>not in notes\<close> and the console is untouched.
\<close>

lemma scan_file_prompts:
  assumes csv: "suffix ''.csv'' file"
    and fcol: "attr nt ''filename'' = Inr fcol"
    and dcol: "attr nt ''description'' = Inr dcol"
    and len: "length dcol = length fcol"
  shows "prompts (snd (scan_file w path (Some nt) file (dfs, io))) =
           prompts io @ (if sublist file (series_str w fcol) \<and> file \<in> set fcol
                         then [input_s] else [])
         \<and> (\<not> sublist file (series_str w fcol) \<longrightarrow>
              scan_file w path (Some nt) file (dfs, io) =
                (case get_sensor_data w path file not_in_notes of
                   Inl e \<Rightarrow> (dfs, io) | Inr df \<Rightarrow> (dfs @ [df], io)))
         \<and> (sublist file (series_str w fcol) \<and> file \<in> set fcol \<longrightarrow>
              (\<exists>n<length fcol. fcol ! n = file \<and> (\<forall>m<n. fcol ! m \<noteq> file)
                 \<and> transcript (snd (scan_file w path (Some nt) file (dfs, io))) =
                     transcript io @
                       [Printed (CHR 0x0A # file), Printed (dcol ! n), Prompted input_s]
                 \<and> (\<forall>l ls. stdin io = l # ls \<longrightarrow>
                       fst (scan_file w path (Some nt) file (dfs, io)) =
                         (case get_sensor_data w path file l of
                            Inl e \<Rightarrow> dfs | Inr df \<Rightarrow> dfs @ [df]))))"
proof (cases "sublist file (series_str w fcol)")
  case False
  from choose_label_not_sub[OF fcol False]
  have cl: "choose_label w (Some nt) file io = (Inr not_in_notes, io)" .
  have "scan_file w path (Some nt) file (dfs, io) =
          (case get_sensor_data w path file not_in_notes of
             Inl e \<Rightarrow> (dfs, io) | Inr df \<Rightarrow> (dfs @ [df], io))"
    using csv cl by (simp add: scan_file_def split: sum.splits)
  moreover have "prompts (snd (scan_file w path (Some nt) file (dfs, io))) = prompts io"
    using csv cl by (simp add: snd_scan_file)
  ultimately show ?thesis using False by simp
next
  case sub: True
  show ?thesis
  proof (cases "file \<in> set fcol")
    case False
    from scan_file_no_row[OF fcol sub False]
    show ?thesis using sub False by simp
  next
    case True
    then obtain n where n: "first_index fcol file = Some n"
      using first_index_None[of fcol "file"] by (cases "first_index fcol file") auto
    from first_index_Some[OF n]
    have props: "n < length fcol" "fcol ! n = file" "\<forall>m<n. fcol ! m \<noteq> file" by auto
    let ?io2 = "py_print (dcol ! n) (py_print (CHR 0x0A # file) io)"
    from choose_label_row[OF fcol sub n dcol len]
    have cl: "choose_label w (Some nt) file io = py_input input_s ?io2" .
    have snd_eq: "snd (scan_file w path (Some nt) file (dfs, io)) = snd (py_input input_s ?io2)"
      using csv cl by (simp add: snd_scan_file)
    have p: "prompts (snd (scan_file w path (Some nt) file (dfs, io))) = prompts io @ [input_s]"
      by (simp add: snd_eq prompts_py_input prompts_py_print)
    have t: "transcript (snd (scan_file w path (Some nt) file (dfs, io))) =
               transcript io @ [Printed (CHR 0x0A # file), Printed (dcol ! n), Prompted input_s]"
      by (simp add: snd_eq transcript_py_input transcript_py_print)
    have f: "fst (scan_file w path (Some nt) file (dfs, io)) =
               (case get_sensor_data w path file l of Inl e \<Rightarrow> dfs | Inr df \<Rightarrow> dfs @ [df])"
      if "stdin io = l # ls" for l ls
    proof -
      from that have "stdin ?io2 = l # ls" by (simp add: stdin_py_print)
      then have "fst (choose_label w (Some nt) file io) = Inr l"
        by (simp add: cl fst_py_input)
      with csv show ?thesis by (rule fst_scan_file)
    qed
    show ?thesis
      using sub True p props t f by auto
  qed
qed

text \<open>
  Claim C4 says that the builder prompts exactly when the file name occurs in the
  serialized view of the notes, and gives the default label otherwise. In \<open>data/\<close> the
  name \<open>3.csv\<close> occurs in the text of the \<open>filename\<close> column, whose only row is
  \<open>run_003.csv\<close>: the script takes the branch that prompts, \<^verbatim>\<open>notes.index[...][0]\<close> raises
  IndexError on the empty selection, and the bare \<^verbatim>\<open>except\<close> drops the file. There is no
  prompt and no frame, under the default label or any other.
\<close>

theorem substring_without_prompt:
  "sublist ''3.csv'' (series_str demo_env [''run_003.csv''])
   \<and> attr demo_notes ''filename'' = Inr [''run_003.csv'']
   \<and> prompts (snd (scan_file demo_env ''data/'' (Some demo_notes) ''3.csv''
                      ([], console0 [''lab1'']))) = []
   \<and> fst (scan_file demo_env ''data/'' (Some demo_notes) ''3.csv''
              ([], console0 [''lab1''])) = []"
  by code_simp

section \<open>Inspect\<close>

lemma indexes_step_raised:
  "indexes_step dfs istart iend i (Some e, io) = (Some e, io)"
  by (simp add: indexes_step_def)

lemma indexes_step_out:
  "\<not> (istart \<le> int i \<and> int i \<le> iend) \<Longrightarrow>
   indexes_step dfs istart iend i (None, io) = (None, io)"
  by (auto simp: indexes_step_def)

lemma indexes_step_in:
  "istart \<le> int i \<Longrightarrow> int i \<le> iend \<Longrightarrow>
   attr0 (dfs ! i) ''label'' = Inr l \<Longrightarrow> attr0 (dfs ! i) ''fname'' = Inr f \<Longrightarrow>
   indexes_step dfs istart iend i (None, io) = (None, py_print (index_line i l f) io)"
  by (simp add: indexes_step_def)

lemma indexes_fold:
  assumes "\<forall>i<k. istart \<le> int i \<and> int i \<le> iend \<longrightarrow>
             attr0 (dfs ! i) ''label'' = Inr (lab i) \<and> attr0 (dfs ! i) ''fname'' = Inr (fnm i)"
  shows "fold (indexes_step dfs istart iend) [0..<k] (None, io) =
           (None, io\<lparr>transcript := transcript io @
              map (\<lambda>i. Printed (index_line i (lab i) (fnm i)))
                  (filter (\<lambda>i. istart \<le> int i \<and> int i \<le> iend) [0..<k])\<rparr>)"
  using assms
proof (induction k)
  case 0
  show ?case by simp
next
  case (Suc k)
  then have IH: "fold (indexes_step dfs istart iend) [0..<k] (None, io) =
           (None, io\<lparr>transcript := transcript io @
              map (\<lambda>i. Printed (index_line i (lab i) (fnm i)))
                  (filter (\<lambda>i. istart \<le> int i \<and> int i \<le> iend) [0..<k])\<rparr>)"
    by simp
  show ?case
  proof (cases "istart \<le> int k \<and> int k \<le> iend")
    case True
    with Suc.prems have "attr0 (dfs ! k) ''label'' = Inr (lab k)"
      "attr0 (dfs ! k) ''fname'' = Inr (fnm k)" by auto
    with True show ?thesis
      by (simp add: IH indexes_step_in py_print_def)
  next
    case False
    then show ?thesis
      by (simp add: IH indexes_step_out)
  qed
qed

lemma filter_range_2_4:
  "filter (\<lambda>i::nat. 2 \<le> i \<and> i \<le> 4) [0..<6] = [2, 3, 4]"
  by (simp add: upt_rec numeral_eq_Suc)

lemma filter_from:
  "filter (\<lambda>i. istart \<le> int i \<and> int i \<le> int n) [0..<n] = [nat istart..<n]"
proof -
  have "filter (\<lambda>i. istart \<le> int i \<and> int i \<le> int n) [0..<n] = filter (\<lambda>i. nat istart \<le> i) [0..<n]"
    by (rule filter_cong) auto
  also have "\<dots> = [nat istart..<n]"
  proof (induction n)
    case 0
    show ?case by simp
  next
    case (Suc n)
    then show ?case by (cases "nat istart \<le> n") (auto simp: upt_conv_Nil)
  qed
  finally show ?thesis .
qed


lemma get_sensor_data_header_only:
  assumes "read_csv w (path @ fname) =
             Inr [(''Smu1_Time(1)(1)'', []), (''Smu1_V(1)(1)'', []), (''Smu1_I(1)(1)'', [])]"
  shows "get_sensor_data w path fname label = Inr empty_frame"
  using assms
  by (simp add: get_sensor_data_def read_csv_usecols_def oldnames_def newnames_def
      set_columns_def set_item_def nrows_def empty_frame_def)

lemma attr0_demo_frame:
  "attr0 (demo_frame f l) ''label'' = Inr l" "attr0 (demo_frame f l) ''fname'' = Inr f"
  by (simp_all add: demo_frame_def attr0_def attr_def series_at_def)

text \<open>
  The range test of \<open>dfs_indexes\<close> includes both ends: on a 6-record collection whose
  records 2, 3 and 4 have a first sample row, \<open>istart = 2\<close> and \<open>iend = 4\<close> give the lines
  of the records 2, 3 and 4; with \<open>istart = 0\<close> and \<open>iend = 0\<close> every record of a collection
  whose records all have a first row is listed.
\<close>

lemma dfs_indexes_inclusive_range:
  "(length dfs = 6 \<and>
    (\<forall>i\<in>{2, 3, 4}. attr0 (dfs ! i) ''label'' = Inr (lab i)
                     \<and> attr0 (dfs ! i) ''fname'' = Inr (fnm i)) \<longrightarrow>
      dfs_indexes dfs 2 4 io =
        (None, io\<lparr>transcript := transcript io @
           [Printed (index_line 2 (lab 2) (fnm 2)), Printed (index_line 3 (lab 3) (fnm 3)),
            Printed (index_line 4 (lab 4) (fnm 4))]\<rparr>))
   \<and> ((\<forall>i<length dfs. attr0 (dfs ! i) ''label'' = Inr (lab i)
                       \<and> attr0 (dfs ! i) ''fname'' = Inr (fnm i)) \<longrightarrow>
      dfs_indexes dfs 0 0 io =
        (None, io\<lparr>transcript := transcript io @
           map (\<lambda>i. Printed (index_line i (lab i) (fnm i))) [0..<length dfs]\<rparr>))"
proof (intro conjI impI)
  assume a: "length dfs = 6 \<and>
    (\<forall>i\<in>{2, 3, 4}. attr0 (dfs ! i) ''label'' = Inr (lab i)
                     \<and> attr0 (dfs ! i) ''fname'' = Inr (fnm i))"
  have "\<forall>i<6. 2 \<le> int i \<and> int i \<le> 4 \<longrightarrow>
          attr0 (dfs ! i) ''label'' = Inr (lab i) \<and> attr0 (dfs ! i) ''fname'' = Inr (fnm i)"
  proof (intro allI impI)
    fix i :: nat assume "i < 6" "2 \<le> int i \<and> int i \<le> 4"
    then have "i = 2 \<or> i = 3 \<or> i = 4" by auto
    with a show "attr0 (dfs ! i) ''label'' = Inr (lab i) \<and> attr0 (dfs ! i) ''fname'' = Inr (fnm i)"
      by auto
  qed
  from indexes_fold[OF this, of io] a
  show "dfs_indexes dfs 2 4 io =
        (None, io\<lparr>transcript := transcript io @
           [Printed (index_line 2 (lab 2) (fnm 2)), Printed (index_line 3 (lab 3) (fnm 3)),
            Printed (index_line 4 (lab 4) (fnm 4))]\<rparr>)"
    by (simp add: dfs_indexes_def filter_range_2_4)
next
  assume a: "\<forall>i<length dfs. attr0 (dfs ! i) ''label'' = Inr (lab i)
                       \<and> attr0 (dfs ! i) ''fname'' = Inr (fnm i)"
  then have "\<forall>i<length dfs. 0 \<le> int i \<and> int i \<le> int (length dfs) \<longrightarrow>
          attr0 (dfs ! i) ''label'' = Inr (lab i) \<and> attr0 (dfs ! i) ''fname'' = Inr (fnm i)"
    by simp
  from indexes_fold[OF this, of io]
  show "dfs_indexes dfs 0 0 io =
        (None, io\<lparr>transcript := transcript io @
           map (\<lambda>i. Printed (index_line i (lab i) (fnm i))) [0..<length dfs]\<rparr>)"
    using filter_from[of 0 "length dfs"] by (simp add: dfs_indexes_def)
qed

text \<open>
  Claim C6 says that on every 6-record collection \<open>dfs_indexes\<close> with \<open>istart = 2\<close> and
  \<open>iend = 4\<close> lists exactly the records 2, 3 and 4. The builder admits a measurement
  file that has the header line and no sample (lemma \<open>get_sensor_data_header_only\<close>);
  its frame has no row, so \<^verbatim>\<open>label[0]\<close> raises KeyError. With such a record at index 3,
  the line of record 2 is printed and the call ends in the KeyError: the records 3 and
  4 are not listed.
\<close>

theorem dfs_indexes_empty_record:
  "length ((demo_collection 6)[3 := empty_frame]) = 6
   \<and> dfs_indexes ((demo_collection 6)[3 := empty_frame]) 2 4 (console0 []) =
       (Some KeyError, \<lparr>stdin = [], transcript = [Printed ''2    lab2    2.csv'']\<rparr>)"
  by code_simp

text \<open>
  Whenever \<open>iend\<close> is 0 or below \<open>istart\<close>, \<open>dfs_indexes\<close> behaves, on every collection,
  as with \<open>iend\<close> equal to the length of the collection. When every record from
  \<open>istart\<close> on has a first sample row, the listing is the lines of the records from
  \<open>istart\<close> to the last one, and for \<open>istart\<close> in range it holds the line of record
  \<open>istart\<close>.
\<close>

lemma dfs_indexes_iend_replaced:
  assumes "iend = 0 \<or> iend < istart"
  shows "dfs_indexes dfs istart iend io = dfs_indexes dfs istart (int (length dfs)) io
         \<and> ((\<forall>i<length dfs. istart \<le> int i \<longrightarrow>
                attr0 (dfs ! i) ''label'' = Inr (lab i)
                \<and> attr0 (dfs ! i) ''fname'' = Inr (fnm i)) \<longrightarrow>
              dfs_indexes dfs istart iend io =
                (None, io\<lparr>transcript := transcript io @
                   map (\<lambda>i. Printed (index_line i (lab i) (fnm i)))
                       [nat istart..<length dfs]\<rparr>)
              \<and> (0 \<le> istart \<and> istart < int (length dfs) \<longrightarrow>
                   Printed (index_line (nat istart) (lab (nat istart)) (fnm (nat istart)))
                     \<in> set (transcript (snd (dfs_indexes dfs istart iend io)))))"
proof (intro conjI impI)
  have e: "dfs_indexes dfs istart iend io =
           fold (indexes_step dfs istart (int (length dfs))) [0..<length dfs] (None, io)"
    using assms by (auto simp: dfs_indexes_def)
  then show r: "dfs_indexes dfs istart iend io = dfs_indexes dfs istart (int (length dfs)) io"
    by (auto simp: dfs_indexes_def)
  assume a: "\<forall>i<length dfs. istart \<le> int i \<longrightarrow>
                attr0 (dfs ! i) ''label'' = Inr (lab i)
                \<and> attr0 (dfs ! i) ''fname'' = Inr (fnm i)"
  then have "\<forall>i<length dfs. istart \<le> int i \<and> int i \<le> int (length dfs) \<longrightarrow>
          attr0 (dfs ! i) ''label'' = Inr (lab i) \<and> attr0 (dfs ! i) ''fname'' = Inr (fnm i)"
    by simp
  from indexes_fold[OF this, of io]
  show l: "dfs_indexes dfs istart iend io =
                (None, io\<lparr>transcript := transcript io @
                   map (\<lambda>i. Printed (index_line i (lab i) (fnm i)))
                       [nat istart..<length dfs]\<rparr>)"
    by (simp only: e filter_from)
  assume "0 \<le> istart \<and> istart < int (length dfs)"
  then have "nat istart \<in> set [nat istart..<length dfs]" by auto
  then show "Printed (index_line (nat istart) (lab (nat istart)) (fnm (nat istart)))
                     \<in> set (transcript (snd (dfs_indexes dfs istart iend io)))"
    unfolding l by auto
qed

text \<open>
  Claim C10 says that with \<open>iend\<close> equal to 0 or below \<open>istart\<close> the listing runs from
  \<open>istart\<close> through the last record, so that it is never empty for \<open>istart\<close> in range.
  On a 3-record collection whose record 1 comes from a file with no sample, with
  \<open>istart = 1\<close> and \<open>iend = 0\<close>: \<open>iend\<close> is replaced by 3, the loop reaches record 1,
  \<^verbatim>\<open>label[0]\<close> raises KeyError, and nothing is listed, neither record 1 nor record 2.
\<close>

theorem dfs_indexes_empty_listing:
  "dfs_indexes ((demo_collection 3)[1 := empty_frame]) 1 0 (console0 [])
     = dfs_indexes ((demo_collection 3)[1 := empty_frame]) 1 3 (console0 [])
   \<and> dfs_indexes ((demo_collection 3)[1 := empty_frame]) 1 0 (console0 [])
     = (Some KeyError, console0 [])"
  by code_simp

section \<open>Persist and Reload\<close>

lemma save_step_snoc:
  "i < length dfs \<Longrightarrow> save_step (dfs @ [d]) f i st = save_step dfs f i st"
  by (simp add: save_step_def nth_append split: prod.splits option.splits sum.splits)

lemma save_dfs_Nil: "save_dfs [] f (fs, io) = (None, fs, io)"
  by (simp add: save_dfs_def)

lemma save_dfs_snoc:
  "save_dfs (dfs @ [d]) f (fs, io) = save_step (dfs @ [d]) f (length dfs) (save_dfs dfs f (fs, io))"
proof -
  have "fold (save_step (dfs @ [d]) f) [0..<length dfs] (None, fs, io) =
        fold (save_step dfs f) [0..<length dfs] (None, fs, io)"
    by (rule fold_cong) (auto simp: save_step_snoc)
  then show ?thesis by (simp add: save_dfs_def)
qed

lemma save_step_labelled:
  "attr0 d ''label'' = Inr l \<Longrightarrow>
   save_step (dfs @ [d]) f (length dfs) (None, fs, io) =
     (None, to_hdf d f l fs, py_print (''Saved '' @ l @ '' dataframe to '' @ f) io)"
  by (simp add: save_step_def)

text \<open>
  Persist alone does what the spec says of it: on a store that starts empty, when each
  record has a label, every key holds the last record written under it.
\<close>

lemma save_dfs_store:
  assumes fresh: "fs f = []" and lab: "\<forall>d\<in>set C. attr0 d ''label'' = Inr (lab d)"
  shows "\<exists>fs' io'. save_dfs C f (fs, io) = (None, fs', io')
           \<and> distinct (map fst (fs' f))
           \<and> (\<forall>k. map_of (fs' f) k = find (\<lambda>d. h5_path (lab d) = k) (rev C))"
  using lab
proof (induction C rule: rev_induct)
  case Nil
  show ?case by (simp add: save_dfs_Nil fresh)
next
  case (snoc x C)
  then obtain fs1 io1 where s: "save_dfs C f (fs, io) = (None, fs1, io1)"
    and dist: "distinct (map fst (fs1 f))"
    and look: "\<And>k. map_of (fs1 f) k = find (\<lambda>d. h5_path (lab d) = k) (rev C)"
    by auto
  from snoc.prems have x: "attr0 x ''label'' = Inr (lab x)" by simp
  let ?st = "AList.update (h5_path (lab x)) x (fs1 f)"
  have res: "save_dfs (C @ [x]) f (fs, io) =
          (None, to_hdf x f (lab x) fs1,
           py_print (''Saved '' @ lab x @ '' dataframe to '' @ f) io1)"
    by (simp add: save_dfs_snoc s save_step_labelled[OF x])
  have st: "to_hdf x f (lab x) fs1 f = ?st" by (simp add: to_hdf_def)
  have d2: "distinct (map fst ?st)" using dist by (rule distinct_update)
  have "map_of ?st k = find (\<lambda>d. h5_path (lab d) = k) (rev (C @ [x]))" for k
    by (simp add: update_conv' look)
  with res st d2 show ?case by auto
qed

text \<open>Reload: the handle of \<^verbatim>\<open>HDFStore\<close> is open for writing when \<^verbatim>\<open>read_hdf\<close> is called.\<close>

lemma read_hdf_while_open: "read_hdf f k fs [Append_mode] = Inl ValueError"
  by (simp add: read_hdf_def open_h5_def)

lemma fold_read_step_raised: "fold (read_step f fs hs) ks (Inl e) = Inl e"
  by (induction ks) (simp_all add: read_step_def)

lemma read_ivs_no_key: "fs f = [] \<Longrightarrow> read_ivs f fs = Inr []"
  by (simp add: read_ivs_def open_h5_def store_keys_def)

lemma read_ivs_some_key:
  assumes "fs f \<noteq> []"
  shows "read_ivs f fs = Inl ValueError"
proof -
  from assms have "length (store_keys f fs) \<noteq> 0"
    by (simp add: store_keys_def)
  then obtain k ks where ks: "store_keys f fs = k # ks"
    by (cases "store_keys f fs") auto
  have "read_step f fs [Append_mode] k (Inr []) = Inl ValueError"
    by (simp add: read_step_def read_hdf_while_open)
  then show ?thesis
    by (simp add: read_ivs_def open_h5_def ks fold_read_step_raised)
qed

text \<open>So Reload fails after every Persist that wrote a record.\<close>

lemma read_ivs_after_save_dfs:
  assumes fresh: "fs f = []" and ne: "C \<noteq> []"
    and lab: "\<forall>d\<in>set C. attr0 d ''label'' = Inr (lab d)"
  shows "\<exists>fs' io'. save_dfs C f (fs, io) = (None, fs', io') \<and> read_ivs f fs' = Inl ValueError"
proof -
  from save_dfs_store[where fs = fs and f = f and C = C and lab = lab and io = io] fresh lab
  obtain fs' io' where s: "save_dfs C f (fs, io) = (None, fs', io')"
    and look: "\<And>k. map_of (fs' f) k = find (\<lambda>d. h5_path (lab d) = k) (rev C)"
    by blast
  from ne obtain x C' where "rev C = x # C'" by (cases "rev C") auto
  then have "map_of (fs' f) (h5_path (lab x)) = Some x" by (simp add: look)
  then have "fs' f \<noteq> []" by auto
  with s show ?thesis by (auto simp: read_ivs_some_key)
qed

text \<open>
  Claim C3 says that persisting a collection with pairwise distinct labels and
  reloading the store gives back its pairs of label and record, and the last record of
  a label when labels repeat, with no error. Saving the one record labelled \<open>x\<close> to the
  file \<open>s.h5\<close> that did not exist returns normally and leaves the record under the key
  \<open>/x\<close>; \<open>read_ivs\<close> on that file ends in a ValueError, since \<^verbatim>\<open>pd.read_hdf\<close> opens the
  file read-only while the handle of \<^verbatim>\<open>pd.HDFStore\<close> is open in append mode.
\<close>

theorem save_dfs_then_read_ivs_raises:
  "fst (save_dfs [demo_frame ''a.csv'' ''x''] ''s.h5'' (\<lambda>f. [], console0 [])) = None
   \<and> fst (snd (save_dfs [demo_frame ''a.csv'' ''x''] ''s.h5'' (\<lambda>f. [], console0 []))) ''s.h5''
       = [(''/x'', demo_frame ''a.csv'' ''x'')]
   \<and> read_ivs ''s.h5''
        (fst (snd (save_dfs [demo_frame ''a.csv'' ''x''] ''s.h5'' (\<lambda>f. [], console0 []))))
       = Inl ValueError"
  by code_simp

text \<open>
  Two further things the store does: the labels \<open>/x\<close> and \<open>x\<close>, distinct as texts, are
  one key, so the second record replaces the first; and the keys are listed sorted by
  name, not in the order of writing.
\<close>

lemma save_dfs_slash_label:
  "fst (snd (save_dfs [demo_frame ''a.csv'' ''/x'', demo_frame ''b.csv'' ''x'']
               ''s.h5'' (\<lambda>f. [], console0 []))) ''s.h5''
     = [(''/x'', demo_frame ''b.csv'' ''x'')]"
  by code_simp

lemma store_keys_sorted:
  "store_keys ''s.h5''
     (fst (snd (save_dfs [demo_frame ''a.csv'' ''y'', demo_frame ''b.csv'' ''x'']
                  ''s.h5'' (\<lambda>f. [], console0 []))))
     = [''/x'', ''/y'']"
  by code_simp

end
